theory Spec2Isabelle
  imports Main "HOL-Library.Sublist"
begin

section \<open>Strings as the verifier uses them\<close>

text \<open>
  The program is one Python file, \<^verbatim>\<open>src/verify.py\<close>. A Python \<^verbatim>\<open>str\<close> is modelled as
  a \<^typ>\<open>string\<close>; a \<^typ>\<open>char\<close> stands for the code point of the same number, so the
  model covers the texts whose code points are below 256. Inside that range the
  white space of \<^verbatim>\<open>str.strip()\<close> is 9..13, 28..32, 133 and 160, and the only
  characters matched by \<^verbatim>\<open>\d\<close> are the ten ASCII digits.
\<close>

definition is_space :: "char \<Rightarrow> bool" where
  "is_space c =
     (let n = (of_char c :: nat)
      in (9 \<le> n \<and> n \<le> 13) \<or> (28 \<le> n \<and> n \<le> 32) \<or> n = 133 \<or> n = 160)"

definition strip :: "string \<Rightarrow> string" where
  \<comment> \<open>\<^verbatim>\<open>s.strip()\<close>\<close>
  "strip s = rev (dropWhile is_space (rev (dropWhile is_space s)))"

fun split_on :: "char \<Rightarrow> string \<Rightarrow> string list" where
  \<comment> \<open>\<^verbatim>\<open>s.split(sep)\<close> for a separator of one character: never an empty list\<close>
  "split_on sep [] = [[]]"
| "split_on sep (c # cs) =
     (if c = sep then [] # split_on sep cs
      else (case split_on sep cs of
              [] \<Rightarrow> [[c]]
            | w # ws \<Rightarrow> (c # w) # ws))"

definition startswith :: "string \<Rightarrow> string \<Rightarrow> bool" where
  \<comment> \<open>\<^verbatim>\<open>s.startswith(p)\<close>\<close>
  "startswith s p = (take (length p) s = p)"

fun py_in :: "string \<Rightarrow> string \<Rightarrow> bool" where
  \<comment> \<open>\<^verbatim>\<open>needle in hay\<close> on two strings\<close>
  "py_in needle [] = (needle = [])"
| "py_in needle (c # cs) = (startswith (c # cs) needle \<or> py_in needle cs)"

definition slice_inner :: "'a list \<Rightarrow> 'a list" where
  \<comment> \<open>\<^verbatim>\<open>xs[1:-1]\<close>\<close>
  "slice_inner xs = butlast (tl xs)"

definition newline :: char where
  "newline = CHR 0x0A"

definition is_hex_lower :: "char \<Rightarrow> bool" where
  \<comment> \<open>the character class \<^verbatim>\<open>[a-f0-9]\<close>\<close>
  "is_hex_lower c =
     (let n = (of_char c :: nat) in (97 \<le> n \<and> n \<le> 102) \<or> (48 \<le> n \<and> n \<le> 57))"

definition is_digit :: "char \<Rightarrow> bool" where
  \<comment> \<open>the class \<^verbatim>\<open>\d\<close>, on code points below 256\<close>
  "is_digit c = (let n = (of_char c :: nat) in 48 \<le> n \<and> n \<le> 57)"

text \<open>
  In Python's \<^verbatim>\<open>re\<close>, \<^verbatim>\<open>$\<close> matches at the end of the string and also just before
  a newline that is the last character; both patterns of the program end in it.
\<close>

definition sha_re_match :: "string \<Rightarrow> bool" where
  \<comment> \<open>\<^verbatim>\<open>re.match(r'^[a-f0-9]{40}$', s)\<close> is not None\<close>
  "sha_re_match s =
     ((length s = 40 \<and> list_all is_hex_lower s) \<or>
      (length s = 41 \<and> last s = newline \<and> list_all is_hex_lower (butlast s)))"

definition date_shape :: "string \<Rightarrow> bool" where
  "date_shape s =
     (length s = 10 \<and> list_all is_digit (take 4 s) \<and> s ! 4 = CHR ''-'' \<and>
      list_all is_digit (take 2 (drop 5 s)) \<and> s ! 7 = CHR ''-'' \<and>
      list_all is_digit (drop 8 s))"

definition date_re_match :: "string \<Rightarrow> bool" where
  \<comment> \<open>\<^verbatim>\<open>re.match(r"^\d{4}-\d{2}-\d{2}$", s)\<close> is not None\<close>
  "date_re_match s =
     (date_shape s \<or> (length s = 11 \<and> last s = newline \<and> date_shape (butlast s)))"

section \<open>The table parser\<close>

record feature =
  name :: string
  sha :: string
  author :: string
  branch :: string
  date :: string
  files_changed :: string
  message :: string

definition row_cells :: "string \<Rightarrow> string list" where
  \<comment> \<open>\<^verbatim>\<open>[cell.strip() for cell in line.split("|")[1:-1]]\<close>\<close>
  "row_cells line = map strip (slice_inner (split_on (CHR ''|'') line))"

definition feature_of_cells :: "string list \<Rightarrow> feature" where
  \<comment> \<open>called on seven cells or more only\<close>
  "feature_of_cells cells =
     \<lparr> name = cells ! 0, sha = cells ! 1, author = cells ! 2, branch = cells ! 3,
       date = cells ! 4, files_changed = cells ! 5, message = cells ! 6 \<rparr>"

text \<open>
  The loop of \<^verbatim>\<open>parse_feature_table\<close>, in the order of the source: the header test
  comes first on every line, also after the table has started; \<^verbatim>\<open>break\<close> returns
  the records gathered so far.
\<close>

fun parse_lines :: "string \<Rightarrow> bool \<Rightarrow> feature list \<Rightarrow> string list \<Rightarrow> feature list" where
  "parse_lines table_header table_started features [] = features"
| "parse_lines table_header table_started features (raw # rest) =
     (let line = strip raw in
      if py_in table_header line then parse_lines table_header True features rest
      else if \<not> table_started then parse_lines table_header table_started features rest
      else if startswith line ''##'' then features
      else if startswith line ''|'' \<and> py_in ''---'' line
        then parse_lines table_header table_started features rest
      else if startswith line ''|'' then
        (let cells = row_cells line in
         if length cells \<ge> 7
         then parse_lines table_header table_started (features @ [feature_of_cells cells]) rest
         else parse_lines table_header table_started features rest)
      else parse_lines table_header table_started features rest)"

definition parse_feature_table :: "string \<Rightarrow> string \<Rightarrow> feature list" where
  "parse_feature_table content table_header =
     parse_lines table_header False [] (split_on newline content)"

fun join_lines :: "string list \<Rightarrow> string" where
  \<comment> \<open>\<^verbatim>\<open>"\n".join(ls)\<close>; it writes a document from its lines in the statements below\<close>
  "join_lines [] = []"
| "join_lines [l] = l"
| "join_lines (l # m # ls) = l @ newline # join_lines (m # ls)"

section \<open>Values decoded from JSON, and what Python does with them\<close>

text \<open>
  The bodies of the remote API are JSON, and the program reads them without checking
  their types first, so the model keeps the dynamic types. \<open>JNull\<close> is \<^verbatim>\<open>None\<close>. Of a
  number only its being zero matters to the program. An object is the decoded dict,
  held as the list of its entries and read with \<^const>\<open>map_of\<close>.
\<close>

datatype json =
  JNull
| JBool bool
| JNum int
| JStr string
| JArr "json list"
| JObj "(string \<times> json) list"

datatype py_exn =
  Type_Error
| Attribute_Error
| Key_Error
| Decode_Error
| Json_Decode_Error
| Transport_Error string

fun truthy :: "json \<Rightarrow> bool" where
  "truthy JNull = False"
| "truthy (JBool b) = b"
| "truthy (JNum n) = (n \<noteq> 0)"
| "truthy (JStr s) = (s \<noteq> [])"
| "truthy (JArr xs) = (xs \<noteq> [])"
| "truthy (JObj kvs) = (kvs \<noteq> [])"

fun py_len :: "json \<Rightarrow> py_exn + nat" where
  "py_len (JStr s) = Inr (length s)"
| "py_len (JArr xs) = Inr (length xs)"
| "py_len (JObj kvs) = Inr (length kvs)"
| "py_len v = Inl Type_Error"

fun py_in_json :: "string \<Rightarrow> json \<Rightarrow> py_exn + bool" where
  \<comment> \<open>\<^verbatim>\<open>key in value\<close> for a string \<^verbatim>\<open>key\<close>\<close>
  "py_in_json k (JObj kvs) = Inr (k \<in> set (map fst kvs))"
| "py_in_json k (JArr xs) = Inr (JStr k \<in> set xs)"
| "py_in_json k (JStr s) = Inr (py_in k s)"
| "py_in_json k v = Inl Type_Error"

fun py_subscript :: "json \<Rightarrow> string \<Rightarrow> py_exn + json" where
  \<comment> \<open>\<^verbatim>\<open>value[key]\<close> for a string \<^verbatim>\<open>key\<close>\<close>
  "py_subscript (JObj kvs) k = (case map_of kvs k of None \<Rightarrow> Inl Key_Error | Some v \<Rightarrow> Inr v)"
| "py_subscript v k = Inl Type_Error"

definition dict_get :: "(string \<times> json) list \<Rightarrow> string \<Rightarrow> json \<Rightarrow> json" where
  \<comment> \<open>\<^verbatim>\<open>d.get(key, default)\<close> on a dict\<close>
  "dict_get kvs k dflt = (case map_of kvs k of None \<Rightarrow> dflt | Some v \<Rightarrow> v)"

fun py_eq_expected :: "json \<Rightarrow> string option \<Rightarrow> bool" where
  \<comment> \<open>\<^verbatim>\<open>==\<close> between a decoded value and a configured string or \<^verbatim>\<open>None\<close>\<close>
  "py_eq_expected (JStr s) (Some e) = (s = e)"
| "py_eq_expected JNull None = True"
| "py_eq_expected v e = False"

section \<open>The remote API\<close>

text \<open>
  A request stands for the URL that the program builds from the same parts; the
  authorization headers go with every request and are left out. The session gives one
  final outcome for a request (its retries are inside it). Decoding base64 and then
  UTF-8 is the library's work and is a parameter: \<open>None\<close> where it raises.
\<close>

datatype request =
  Get_Contents string string string string
| Get_Commit string string string

record response =
  status_code :: nat
  body_text :: string
  json_body :: "json option"
  rate_limit_remaining :: "string option"

datatype http_outcome =
  Responded response
| Timed_Out
| Failed string

record env =
  net :: "request \<Rightarrow> http_outcome"
  b64decode_utf8 :: "string \<Rightarrow> string option"

datatype api_note =
  No_Note
| Commit_Absent string string string
| Rate_Limit string

datatype diag =
  File_Not_Found string string
| Access_Limited
| Fetch_Failed nat string
| Fetch_Timeout
| Fetch_Exception py_exn
| Invalid_Sha string
| Api_Error nat api_note
| Missing_Field string
| Author_Not_Dict
| Commit_Timeout
| Json_Unparsable
| Uncaught py_exn
| Missing_Section string
| No_Features string
| Too_Few_Features int nat
| Feature_Not_Found string
| Sha_Mismatch string string string
| No_Commit_Detail string
| Author_Unlinked string string
| Author_Mismatch string "string option" json
| Message_Mismatch string string string
| Date_Format_Error string string
| Date_Mismatch string "string option" string

text \<open>
  What a run does besides returning: the requests it sends, the diagnostics it writes
  to the error stream (one value for the lines of one failure) and the one warning it
  writes to the output. The progress lines of the output are left out.
\<close>

datatype event =
  Http_Get request
| Stderr diag
| Stdout_Warning string

fun is_commit_lookup :: "event \<Rightarrow> bool" where
  "is_commit_lookup (Http_Get (Get_Commit org repo s)) = True"
| "is_commit_lookup e = False"

fun is_http_get :: "event \<Rightarrow> bool" where
  "is_http_get (Http_Get r) = True"
| "is_http_get e = False"

section \<open>Document fetch and commit lookup\<close>

definition fetch_decode :: "env \<Rightarrow> response \<Rightarrow> py_exn + json" where
  \<comment> \<open>the branch of \<^verbatim>\<open>fetch_github_file\<close> for status 200; \<open>Inl\<close> is an exception raised there\<close>
  "fetch_decode world r =
     (case json_body r of
        None \<Rightarrow> Inl Json_Decode_Error
      | Some (JObj kvs) \<Rightarrow>
          if map_of kvs ''encoding'' = Some (JStr ''base64'') then
            (case map_of kvs ''content'' of
               None \<Rightarrow> Inl Key_Error
             | Some (JStr c) \<Rightarrow>
                 (case b64decode_utf8 world c of
                    None \<Rightarrow> Inl Decode_Error
                  | Some decoded \<Rightarrow> Inr (JStr decoded))
             | Some other \<Rightarrow> Inl Type_Error)
          else Inr (dict_get kvs ''content'' (JStr []))
      | Some other \<Rightarrow> Inl Attribute_Error)"

definition fetch_github_file ::
  "env \<Rightarrow> string \<Rightarrow> string \<Rightarrow> string \<Rightarrow> string \<Rightarrow> json \<times> event list" where
  \<comment> \<open>every \<^verbatim>\<open>return None\<close> of the source is \<open>JNull\<close> here\<close>
  "fetch_github_file world file_path org repo ref =
     (let req = Get_Contents org repo file_path ref in
      case net world req of
        Timed_Out \<Rightarrow> (JNull, [Http_Get req, Stderr Fetch_Timeout])
      | Failed e \<Rightarrow> (JNull, [Http_Get req, Stderr (Fetch_Exception (Transport_Error e))])
      | Responded r \<Rightarrow>
          if status_code r = 200 then
            (case fetch_decode world r of
               Inl e \<Rightarrow> (JNull, [Http_Get req, Stderr (Fetch_Exception e)])
             | Inr v \<Rightarrow> (v, [Http_Get req]))
          else if status_code r = 404 then
            (JNull, [Http_Get req, Stderr (File_Not_Found file_path ref)])
          else if status_code r = 403 then
            (JNull, [Http_Get req, Stderr Access_Limited])
          else
            (JNull, [Http_Get req, Stderr (Fetch_Failed (status_code r) (take 200 (body_text r)))]))"

definition commit_detail_checks :: "json \<Rightarrow> py_exn + diag option" where
  \<comment> \<open>the checks of \<^verbatim>\<open>verify_commit\<close> on the decoded body: \<open>Inl\<close> an exception,
      \<open>Inr (Some d)\<close> a check that fails with \<open>d\<close>, \<open>Inr None\<close> all passed\<close>
  "commit_detail_checks d =
     (case py_in_json ''sha'' d of
        Inl e \<Rightarrow> Inl e
      | Inr False \<Rightarrow> Inr (Some (Missing_Field ''sha''))
      | Inr True \<Rightarrow>
     (case py_in_json ''commit'' d of
        Inl e \<Rightarrow> Inl e
      | Inr False \<Rightarrow> Inr (Some (Missing_Field ''commit''))
      | Inr True \<Rightarrow>
     (case py_in_json ''author'' d of
        Inl e \<Rightarrow> Inl e
      | Inr False \<Rightarrow> Inr None
      | Inr True \<Rightarrow>
     (case py_subscript d ''author'' of
        Inl e \<Rightarrow> Inl e
      | Inr JNull \<Rightarrow> Inr None
      | Inr (JObj a) \<Rightarrow> Inr None
      | Inr other \<Rightarrow> Inr (Some Author_Not_Dict)))))"

definition api_error_note :: "response \<Rightarrow> string \<Rightarrow> string \<Rightarrow> string \<Rightarrow> api_note" where
  "api_error_note r commit_sha org repo =
     (if status_code r = 404 then Commit_Absent (take 8 commit_sha) org repo
      else if status_code r = 403 then
        Rate_Limit (case rate_limit_remaining r of None \<Rightarrow> ''?'' | Some n \<Rightarrow> n)
      else No_Note)"

definition verify_commit :: "env \<Rightarrow> string \<Rightarrow> string \<Rightarrow> string \<Rightarrow> json \<times> event list" where
  "verify_commit world commit_sha org repo =
     (if \<not> sha_re_match commit_sha then (JNull, [Stderr (Invalid_Sha commit_sha)])
      else
        (let req = Get_Commit org repo commit_sha in
         case net world req of
           Timed_Out \<Rightarrow> (JNull, [Http_Get req, Stderr Commit_Timeout])
         | Failed e \<Rightarrow> (JNull, [Http_Get req, Stderr (Uncaught (Transport_Error e))])
         | Responded r \<Rightarrow>
             if status_code r \<noteq> 200 then
               (JNull, [Http_Get req,
                        Stderr (Api_Error (status_code r) (api_error_note r commit_sha org repo))])
             else
               (case json_body r of
                  None \<Rightarrow> (JNull, [Http_Get req, Stderr Json_Unparsable])
                | Some commit_detail \<Rightarrow>
                    (case commit_detail_checks commit_detail of
                       Inl e \<Rightarrow> (JNull, [Http_Get req, Stderr (Uncaught e)])
                     | Inr (Some d) \<Rightarrow> (JNull, [Http_Get req, Stderr d])
                     | Inr None \<Rightarrow> (commit_detail, [Http_Get req])))))"

section \<open>The verification engine\<close>

text \<open>
  The configuration has the types that the specification gives its keys. The three
  maps by sha are dicts; \<open>expected_features\<close> is iterated, so it keeps its order.
\<close>

record config =
  target_repo :: string
  target_branch :: string
  feature_doc_path :: string
  table_header :: string
  required_sections :: "string list"
  min_feature_count :: int
  expected_features :: "(string \<times> string) list"
  expected_authors :: "string \<rightharpoonup> string option"
  expected_messages :: "string \<rightharpoonup> string"
  expected_dates :: "string \<rightharpoonup> string"

fun check_sections :: "json \<Rightarrow> string list \<Rightarrow> py_exn + string option" where
  \<comment> \<open>step 2: \<open>Inr (Some s)\<close> is the first section that is missing\<close>
  "check_sections doc [] = Inr None"
| "check_sections doc (s # ss) =
     (case py_in_json s doc of
        Inl e \<Rightarrow> Inl e
      | Inr False \<Rightarrow> Inr (Some s)
      | Inr True \<Rightarrow> check_sections doc ss)"

definition feat_name_to_sha :: "feature list \<Rightarrow> (string \<rightharpoonup> string)" where
  \<comment> \<open>\<^verbatim>\<open>{feat["name"]: feat["sha"] for feat in features}\<close>: a later row overwrites\<close>
  "feat_name_to_sha features = map_of (rev (map (\<lambda>feat. (name feat, sha feat)) features))"

fun check_expected_features :: "(string \<rightharpoonup> string) \<Rightarrow> (string \<times> string) list \<Rightarrow> diag option" where
  \<comment> \<open>step 5: the diagnostic of the first pair that fails\<close>
  "check_expected_features m [] = None"
| "check_expected_features m ((expected_name, expected_sha) # rest) =
     (case m expected_name of
        None \<Rightarrow> Some (Feature_Not_Found expected_name)
      | Some actual_sha \<Rightarrow>
          if actual_sha \<noteq> expected_sha
          then Some (Sha_Mismatch expected_name expected_sha actual_sha)
          else check_expected_features m rest)"

datatype check = Pass "event list" | Fail diag | Raise py_exn

definition author_check :: "(string \<times> json) list \<Rightarrow> string option \<Rightarrow> string \<Rightarrow> check" where
  "author_check commit_detail expected_author feat_sha =
     (case dict_get commit_detail ''author'' JNull of
        JNull \<Rightarrow>
          (case expected_author of
             Some e \<Rightarrow> Fail (Author_Unlinked (take 8 feat_sha) e)
           | None \<Rightarrow> Pass [Stdout_Warning (take 8 feat_sha)])
      | JObj a \<Rightarrow>
          (let actual_author = dict_get a ''login'' JNull in
           if \<not> truthy actual_author \<or> \<not> py_eq_expected actual_author expected_author
           then Fail (Author_Mismatch (take 8 feat_sha) expected_author actual_author)
           else Pass [])
      | other \<Rightarrow> Raise Attribute_Error)"

definition message_check :: "(string \<times> json) list \<Rightarrow> string \<Rightarrow> string \<Rightarrow> check" where
  "message_check commit_detail expected_msg feat_sha =
     (case dict_get commit_detail ''commit'' (JObj []) of
        JObj c \<Rightarrow>
          (case dict_get c ''message'' (JStr []) of
             JStr m \<Rightarrow>
               (let actual_commit_msg = hd (split_on newline m) in
                if actual_commit_msg \<noteq> expected_msg
                then Fail (Message_Mismatch (take 8 feat_sha) expected_msg actual_commit_msg)
                else Pass [])
           | other \<Rightarrow> Raise Attribute_Error)
      | other \<Rightarrow> Raise Attribute_Error)"

definition date_check :: "feature \<Rightarrow> string option \<Rightarrow> check" where
  "date_check feat expected_date =
     (if \<not> date_re_match (date feat) then Fail (Date_Format_Error (name feat) (date feat))
      else if Some (date feat) \<noteq> expected_date
        then Fail (Date_Mismatch (take 8 (sha feat)) expected_date (date feat))
      else Pass [])"

datatype step = Skipped | Verified | Failed_Step | Raised py_exn

fun is_passed :: "step \<Rightarrow> bool" where
  "is_passed Skipped = True"
| "is_passed Verified = True"
| "is_passed other = False"

definition expected_message :: "config \<Rightarrow> string \<Rightarrow> string" where
  \<comment> \<open>\<^verbatim>\<open>expected_msgs.get(feat_sha, "")\<close>\<close>
  "expected_message cfg s = (case expected_messages cfg s of None \<Rightarrow> [] | Some m \<Rightarrow> m)"

definition verify_feature :: "env \<Rightarrow> config \<Rightarrow> string \<Rightarrow> feature \<Rightarrow> step \<times> event list" where
  \<comment> \<open>the body of the loop of step 6, for one record\<close>
  "verify_feature world cfg github_org feat =
     (let feat_sha = sha feat in
      case expected_authors cfg feat_sha of
        None \<Rightarrow> (Skipped, [])
      | Some expected_author \<Rightarrow>
          if \<not> sha_re_match feat_sha then (Failed_Step, [Stderr (Invalid_Sha feat_sha)])
          else
            (case verify_commit world feat_sha github_org (target_repo cfg) of
               (JObj commit_detail, t) \<Rightarrow>
                 if commit_detail = [] then
                   (Failed_Step, t @ [Stderr (No_Commit_Detail (take 8 feat_sha))])
                 else
                   (case author_check commit_detail expected_author feat_sha of
                      Raise e \<Rightarrow> (Raised e, t)
                    | Fail d \<Rightarrow> (Failed_Step, t @ [Stderr d])
                    | Pass w \<Rightarrow>
                   (case message_check commit_detail (expected_message cfg feat_sha) feat_sha of
                      Raise e \<Rightarrow> (Raised e, t @ w)
                    | Fail d \<Rightarrow> (Failed_Step, t @ w @ [Stderr d])
                    | Pass w' \<Rightarrow>
                   (case date_check feat (expected_dates cfg feat_sha) of
                      Raise e \<Rightarrow> (Raised e, t @ w @ w')
                    | Fail d \<Rightarrow> (Failed_Step, t @ w @ w' @ [Stderr d])
                    | Pass w'' \<Rightarrow> (Verified, t @ w @ w' @ w''))))
             | (other, t) \<Rightarrow> (Failed_Step, t @ [Stderr (No_Commit_Detail (take 8 feat_sha))])))"

fun verify_commits ::
  "env \<Rightarrow> config \<Rightarrow> string \<Rightarrow> feature list \<Rightarrow> (py_exn + bool) \<times> event list" where
  \<comment> \<open>step 6: \<open>Inr b\<close> is \<^verbatim>\<open>return b\<close>, \<open>Inl e\<close> an exception that leaves the function\<close>
  "verify_commits world cfg github_org [] = (Inr True, [])"
| "verify_commits world cfg github_org (feat # rest) =
     (case verify_feature world cfg github_org feat of
        (Failed_Step, t) \<Rightarrow> (Inr False, t)
      | (Raised e, t) \<Rightarrow> (Inl e, t)
      | (passed, t) \<Rightarrow>
          (case verify_commits world cfg github_org rest of (r, t') \<Rightarrow> (r, t @ t')))"

definition verify_table ::
  "env \<Rightarrow> config \<Rightarrow> string \<Rightarrow> string \<Rightarrow> (py_exn + bool) \<times> event list" where
  \<comment> \<open>steps 3 to 6, on the text of the document\<close>
  "verify_table world cfg github_org doc_content =
     (let features = parse_feature_table doc_content (table_header cfg) in
      if length features = 0 then (Inr False, [Stderr (No_Features (table_header cfg))])
      else if int (length features) < min_feature_count cfg then
        (Inr False, [Stderr (Too_Few_Features (min_feature_count cfg) (length features))])
      else
        (case check_expected_features (feat_name_to_sha features) (expected_features cfg) of
           Some d \<Rightarrow> (Inr False, [Stderr d])
         | None \<Rightarrow> verify_commits world cfg github_org features))"

definition run_verification ::
  "env \<Rightarrow> config \<Rightarrow> string \<Rightarrow> (py_exn + bool) \<times> event list" where
  "run_verification world cfg github_org =
     (case fetch_github_file world (feature_doc_path cfg) github_org
             (target_repo cfg) (target_branch cfg) of
        (doc_content, t) \<Rightarrow>
          if \<not> truthy doc_content then (Inr False, t)
          else
            (case py_len doc_content of
               Inl e \<Rightarrow> (Inl e, t)
             | Inr n \<Rightarrow>
            (case check_sections doc_content (required_sections cfg) of
               Inl e \<Rightarrow> (Inl e, t)
             | Inr (Some s) \<Rightarrow> (Inr False, t @ [Stderr (Missing_Section s)])
             | Inr None \<Rightarrow>
            (case doc_content of
               JStr content \<Rightarrow>
                 (case verify_table world cfg github_org content of (r, t') \<Rightarrow> (r, t @ t'))
             | other \<Rightarrow> (Inl Attribute_Error, t)))))"

definition main_exit_code :: "py_exn + bool \<Rightarrow> nat" where
  \<comment> \<open>\<^verbatim>\<open>main\<close>: \<^verbatim>\<open>sys.exit(0 if verification_result else 1)\<close>, and 1 for any exception\<close>
  "main_exit_code r = (case r of Inr True \<Rightarrow> 0 | Inr False \<Rightarrow> 1 | Inl e \<Rightarrow> 1)"

section \<open>The failure kinds of the specification\<close>

text \<open>
  The specification names four kinds of failed fetch: not-found, access-denied,
  transport-timeout and other-transport-error. \<open>failure_kind\<close> follows its words, on
  the outcome of the request; a body of status 200 that cannot be decoded is counted
  with the other errors. \<open>diag_kind\<close> is the kind that a diagnostic of the fetcher
  tells. Neither is taken from the code, which has no such type.
\<close>

datatype fetch_failure = Not_Found | Access_Denied | Transport_Timeout | Other_Transport_Error

fun failure_kind :: "env \<Rightarrow> http_outcome \<Rightarrow> fetch_failure option" where
  "failure_kind world (Responded r) =
     (if status_code r = 200 then
        (case fetch_decode world r of
           Inl e \<Rightarrow> Some Other_Transport_Error
         | Inr v \<Rightarrow> None)
      else if status_code r = 404 then Some Not_Found
      else if status_code r = 403 then Some Access_Denied
      else Some Other_Transport_Error)"
| "failure_kind world Timed_Out = Some Transport_Timeout"
| "failure_kind world (Failed e) = Some Other_Transport_Error"

fun diag_kind :: "diag \<Rightarrow> fetch_failure option" where
  "diag_kind (File_Not_Found path ref) = Some Not_Found"
| "diag_kind Access_Limited = Some Access_Denied"
| "diag_kind Fetch_Timeout = Some Transport_Timeout"
| "diag_kind (Fetch_Failed code body) = Some Other_Transport_Error"
| "diag_kind (Fetch_Exception e) = Some Other_Transport_Error"
| "diag_kind d = None"

definition is_ascii_upper :: "char \<Rightarrow> bool" where
  "is_ascii_upper c = (let n = (of_char c :: nat) in 65 \<le> n \<and> n \<le> 90)"

definition exact_sha :: "string \<Rightarrow> bool" where
  \<comment> \<open>the whole string is 40 characters of \<^verbatim>\<open>[a-f0-9]\<close>: what the message of the format
      check asks for, and what \<^verbatim>\<open>re.fullmatch\<close> would accept\<close>
  "exact_sha s = (length s = 40 \<and> list_all is_hex_lower s)"

section \<open>Documents used as concrete inputs\<close>

definition example_sha :: string where
  "example_sha = ''0123456789abcdef0123456789abcdef01234567''"

definition sha_with_newline :: string where
  \<comment> \<open>forty hexadecimal characters and a final newline\<close>
  "sha_with_newline = example_sha @ [newline]"

definition head_line :: string where
  "head_line = ''| Feature | SHA | Author | Branch | Date | Files | Message |''"

definition rule_line :: string where
  "rule_line = ''|---|---|---|---|---|---|---|''"

definition feature_row :: "string \<Rightarrow> string" where
  "feature_row s = ''| A | '' @ s @ '' | alice | main | 2024-01-01 | 3 | fix bug |''"

definition other_row :: string where
  "other_row = ''| B | 89abcdef0123456789abcdef0123456789abcdef | bob | dev | 2024-02-02 | 1 | add docs |''"

definition table_document :: "string \<Rightarrow> string" where
  "table_document s =
     join_lines [''# Feature log'', [], head_line, rule_line, feature_row s, [], ''## Notes'']"

definition record_a :: "string \<Rightarrow> feature" where
  "record_a s =
     \<lparr> name = ''A'', sha = s, author = ''alice'', branch = ''main'', date = ''2024-01-01'',
       files_changed = ''3'', message = ''fix bug'' \<rparr>"


definition plain_response :: "nat \<Rightarrow> response" where
  "plain_response code =
     \<lparr> status_code = code, body_text = [], json_body = None, rate_limit_remaining = None \<rparr>"

definition world_of :: "http_outcome \<Rightarrow> env" where
  \<comment> \<open>a remote side that answers every request alike\<close>
  "world_of outcome = \<lparr> net = (\<lambda>req. outcome), b64decode_utf8 = (\<lambda>s. None) \<rparr>"

definition commit_entries :: "string \<Rightarrow> json \<Rightarrow> (string \<times> json) list" where
  "commit_entries s linked =
     [(''sha'', JStr s),
      (''commit'', JObj [(''message'', JStr ''fix bug'')]),
      (''author'', linked)]"

definition example_world :: "string \<Rightarrow> json \<Rightarrow> env" where
  \<comment> \<open>serves the given document as plain text, and for every commit the message
      \<^verbatim>\<open>fix bug\<close> with the given \<^verbatim>\<open>author\<close> value\<close>
  "example_world doc linked =
     \<lparr> net = (\<lambda>req. case req of
          Get_Contents org repo path ref \<Rightarrow>
            Responded ((plain_response 200)
              \<lparr> json_body := Some (JObj [(''content'', JStr doc)]) \<rparr>)
        | Get_Commit org repo s \<Rightarrow>
            Responded ((plain_response 200) \<lparr> json_body := Some (JObj (commit_entries s linked)) \<rparr>)),
       b64decode_utf8 = (\<lambda>s. None) \<rparr>"

definition example_config :: config where
  "example_config =
     \<lparr> target_repo = ''repo'', target_branch = ''main'', feature_doc_path = ''FEATURES.md'',
       table_header = ''| Feature | SHA |'', required_sections = [''# Feature log''],
       min_feature_count = 1, expected_features = [(''A'', example_sha)],
       expected_authors = [example_sha \<mapsto> None],
       expected_messages = [example_sha \<mapsto> ''fix bug''],
       expected_dates = [example_sha \<mapsto> ''2024-01-01''] \<rparr>"

definition served_world :: env where
  \<comment> \<open>the commits have no linked account\<close>
  "served_world = example_world (table_document example_sha) JNull"


definition malformed_world :: env where
  \<comment> \<open>the row of the table has the sha \<^verbatim>\<open>c0ffee\<close>\<close>
  "malformed_world = example_world (table_document ''c0ffee'') JNull"

definition config_expecting_x :: config where
  "config_expecting_x = example_config \<lparr> expected_features := [(''X'', example_sha)] \<rparr>"



definition config_keyed_by_c0ffee :: config where
  "config_keyed_by_c0ffee =
     example_config \<lparr> expected_features := [], expected_authors := [''c0ffee'' \<mapsto> None] \<rparr>"

definition config_with_stray_keys :: config where
  \<comment> \<open>three keys that are no sha and that no row of the table carries\<close>
  "config_with_stray_keys =
     example_config
       \<lparr> expected_authors := [example_sha \<mapsto> None, ''BAD'' \<mapsto> Some ''alice''],
         expected_messages := [example_sha \<mapsto> ''fix bug'', ''not-a-sha'' \<mapsto> ''fix bug''],
         expected_dates := [example_sha \<mapsto> ''2024-01-01'', ''XYZ'' \<mapsto> ''2024-01-01''] \<rparr>"

section \<open>Facts about the string operations\<close>

declare parse_lines.simps(2) [simp del]

lemma split_on_ne: "split_on c s \<noteq> []"
  by (induction s) (auto split: list.splits)

lemma split_on_append_nosep:
  "c \<notin> set s \<Longrightarrow> split_on c (s @ rest) = (s @ hd (split_on c rest)) # tl (split_on c rest)"
  by (induction s) (use split_on_ne in \<open>auto split: list.splits\<close>)

lemma split_on_nosep: "c \<notin> set s \<Longrightarrow> split_on c s = [s]"
  using split_on_append_nosep [of c s "[]"] by simp

lemma split_join_lines:
  "list_all (\<lambda>l. newline \<notin> set l) ls \<Longrightarrow> ls \<noteq> [] \<Longrightarrow> split_on newline (join_lines ls) = ls"
proof (induction ls rule: join_lines.induct)
  case 1
  then show ?case by simp
next
  case (2 l)
  then show ?case by (simp add: split_on_nosep)
next
  case (3 l m ls)
  then show ?case by (simp add: split_on_append_nosep)
qed

lemma split_on_pieces:
  "split_on c s = w # ws \<Longrightarrow> prefix w s \<and> (\<forall>l \<in> set ws. sublist l s)"
proof (induction s arbitrary: w ws)
  case Nil
  then show ?case by simp
next
  case (Cons x xs)
  obtain v vs where sp: "split_on c xs = v # vs"
    using split_on_ne by (cases "split_on c xs") auto
  from Cons.IH [OF sp] have pv: "prefix v xs" and sv: "\<forall>l \<in> set vs. sublist l xs"
    by simp_all
  show ?case
  proof (cases "x = c")
    case True
    with Cons.prems sp have "w = []" and "ws = v # vs" by simp_all
    with pv sv show ?thesis
      by (auto simp: sublist_Cons_right dest: prefix_imp_sublist)
  next
    case False
    with Cons.prems sp have "w = x # v" and "ws = vs" by simp_all
    with pv sv show ?thesis
      by (auto simp: sublist_Cons_right)
  qed
qed

lemma sublist_split_on:
  assumes "l \<in> set (split_on c s)"
  shows "sublist l s"
proof -
  obtain w ws where sp: "split_on c s = w # ws"
    using split_on_ne by (cases "split_on c s") auto
  from split_on_pieces [OF sp] assms sp show ?thesis
    by (auto dest: prefix_imp_sublist)
qed

lemma startswith_prefix: "startswith s p \<longleftrightarrow> prefix p s"
  unfolding startswith_def
  by (metis append_eq_conv_conj prefix_def take_is_prefix)

lemma py_in_sublist: "py_in n h \<longleftrightarrow> sublist n h"
  by (induction h) (auto simp: startswith_prefix sublist_Cons_right)

lemma py_in_set: "py_in n h \<Longrightarrow> set n \<subseteq> set h"
  by (auto simp: py_in_sublist dest: set_mono_sublist)

lemma py_in_skip: "c \<notin> set xs \<Longrightarrow> py_in (c # n) (xs @ ys) = py_in (c # n) ys"
  by (induction xs) (auto simp: startswith_def)

lemma sublist_strip: "sublist (strip l) l"
proof -
  have "suffix (dropWhile is_space (rev (dropWhile is_space l))) (rev (dropWhile is_space l))"
    by (rule suffix_dropWhile)
  then have "prefix (strip l) (dropWhile is_space l)"
    unfolding strip_def by (simp add: suffix_to_prefix)
  moreover have "suffix (dropWhile is_space l) l"
    by (rule suffix_dropWhile)
  ultimately show ?thesis
    by (meson prefix_imp_sublist suffix_imp_sublist sublist_order.order_trans)
qed

lemma strip_padded:
  assumes "s \<noteq> []" "\<not> is_space (hd s)" "\<not> is_space (last s)"
  shows "strip (CHR '' '' # s @ '' '') = s"
proof -
  have sp: "is_space (CHR '' '')" by (simp add: is_space_def)
  have 1: "dropWhile is_space (CHR '' '' # s @ '' '') = s @ '' ''"
    using assms sp by (cases s) simp_all
  have 2: "dropWhile is_space (rev (s @ '' '')) = rev s"
    using assms sp by (cases s rule: rev_cases) simp_all
  show ?thesis by (simp only: strip_def 1 2 rev_rev_ident)
qed

lemma hex_lower_set: "list_all is_hex_lower s \<Longrightarrow> \<not> is_hex_lower c \<Longrightarrow> c \<notin> set s"
  by (auto simp: list_all_iff)

lemma sha_facts:
  assumes "length s = 40" "list_all is_hex_lower s"
  shows "s \<noteq> []" "\<not> is_space (hd s)" "\<not> is_space (last s)"
    "CHR ''|'' \<notin> set s" "CHR ''-'' \<notin> set s" "CHR ''F'' \<notin> set s" "newline \<notin> set s"
proof -
  show ne: "s \<noteq> []" using assms(1) by auto
  have hx: "is_hex_lower c" if "c \<in> set s" for c
    using assms(2) that by (simp add: list_all_iff)
  have nsp: "\<not> is_space c" if "is_hex_lower c" for c
    using that by (auto simp: is_space_def is_hex_lower_def Let_def)
  show "\<not> is_space (hd s)" using ne hx nsp by simp
  show "\<not> is_space (last s)" using ne hx nsp by simp
  show "CHR ''|'' \<notin> set s" using assms(2) by (rule hex_lower_set) (simp add: is_hex_lower_def)
  show "CHR ''-'' \<notin> set s" using assms(2) by (rule hex_lower_set) (simp add: is_hex_lower_def)
  show "CHR ''F'' \<notin> set s" using assms(2) by (rule hex_lower_set) (simp add: is_hex_lower_def)
  show "newline \<notin> set s"
    using assms(2) by (rule hex_lower_set) (simp add: is_hex_lower_def newline_def)
qed

section \<open>Facts about the parser's loop\<close>

text \<open>
  One line either ends the loop, whatever follows it, or hands the rest of the lines
  to the loop in a state that does not depend on them; a table that has started stays
  started.
\<close>

lemma parse_lines_step:
  "(\<forall>rest. parse_lines h b fs (l # rest) = fs) \<or>
   (\<exists>fs'. \<forall>rest. parse_lines h b fs (l # rest) = parse_lines h (b \<or> py_in h (strip l)) fs' rest)"
proof (cases "py_in h (strip l)")
  case True
  then have "\<forall>rest. parse_lines h b fs (l # rest) = parse_lines h (b \<or> py_in h (strip l)) fs rest"
    by (simp add: parse_lines.simps(2))
  then show ?thesis by blast
next
  case nh: False
  show ?thesis
  proof (cases b)
    case False
    with nh have "\<forall>rest. parse_lines h b fs (l # rest) = parse_lines h (b \<or> py_in h (strip l)) fs rest"
      by (simp add: parse_lines.simps(2))
    then show ?thesis by blast
  next
    case True
    show ?thesis
    proof (cases "startswith (strip l) ''##''")
      case True
      with nh \<open>b\<close> show ?thesis by (simp add: parse_lines.simps(2))
    next
      case False
      define fs' where "fs' =
        (if startswith (strip l) ''|'' \<and> \<not> py_in ''---'' (strip l) \<and> 7 \<le> length (row_cells (strip l))
         then fs @ [feature_of_cells (row_cells (strip l))] else fs)"
      from nh \<open>b\<close> False
      have "\<forall>rest. parse_lines h b fs (l # rest) = parse_lines h (b \<or> py_in h (strip l)) fs' rest"
        by (auto simp: fs'_def Let_def parse_lines.simps(2))
      then show ?thesis by blast
    qed
  qed
qed

lemma parse_lines_started_cong:
  assumes "\<And>fs. parse_lines h True fs xs = parse_lines h True fs ys"
  shows "parse_lines h True fs (mid @ xs) = parse_lines h True fs (mid @ ys)"
proof (induction mid arbitrary: fs)
  case Nil
  show ?case using assms by simp
next
  case (Cons m mid)
  from parse_lines_step [of h True fs m] show ?case
  proof
    assume "\<forall>rest. parse_lines h True fs (m # rest) = fs"
    then show ?thesis by simp
  next
    assume "\<exists>fs'. \<forall>rest. parse_lines h True fs (m # rest) =
      parse_lines h (True \<or> py_in h (strip m)) fs' rest"
    then obtain fs' where "\<forall>rest. parse_lines h True fs (m # rest) = parse_lines h True fs' rest"
      by auto
    then show ?thesis using Cons.IH [of fs'] by simp
  qed
qed

lemma parse_lines_after_header:
  assumes "py_in h (strip hdr)"
    and "\<And>fs. parse_lines h True fs xs = parse_lines h True fs ys"
  shows "parse_lines h b fs (pre @ hdr # mid @ xs) = parse_lines h b fs (pre @ hdr # mid @ ys)"
proof (induction pre arbitrary: b fs)
  case Nil
  have "parse_lines h b fs (hdr # mid @ zs) = parse_lines h True fs (mid @ zs)" for zs
    using assms(1) by (simp add: parse_lines.simps(2))
  then show ?case using parse_lines_started_cong [OF assms(2)] by simp
next
  case (Cons p pre)
  from parse_lines_step [of h b fs p] show ?case
  proof
    assume "\<forall>rest. parse_lines h b fs (p # rest) = fs"
    then show ?thesis by simp
  next
    assume "\<exists>fs'. \<forall>rest. parse_lines h b fs (p # rest) =
      parse_lines h (b \<or> py_in h (strip p)) fs' rest"
    then obtain fs' where "\<forall>rest. parse_lines h b fs (p # rest) =
      parse_lines h (b \<or> py_in h (strip p)) fs' rest"
      by blast
    then show ?thesis using Cons.IH [of "b \<or> py_in h (strip p)" fs'] by simp
  qed
qed

lemma parse_lines_no_header:
  "list_all (\<lambda>l. \<not> py_in h (strip l)) ls \<Longrightarrow> parse_lines h False fs ls = fs"
  by (induction ls) (simp_all add: parse_lines.simps(2))


lemma startswith_pipe_not_heading: "startswith s ''|'' \<Longrightarrow> \<not> startswith s ''##''"
  by (cases s) (auto simp: startswith_def)

lemma parse_lines_short_row:
  "startswith (strip l) ''|'' \<Longrightarrow> length (row_cells (strip l)) < 7 \<Longrightarrow>
   parse_lines h True fs (l # post) = parse_lines h True fs post"
  by (simp add: Let_def startswith_pipe_not_heading parse_lines.simps(2))

text \<open>
  Every record comes from one line of seven cells or more, and its fields are trimmed
  cells. So a sha taken from the table never ends in a newline, and on it the pattern
  of the sha matches exactly the strings of 40 lowercase hexadecimal characters.
\<close>

lemma parse_lines_step_cases:
  "(\<forall>rest. parse_lines h b fs (l # rest) = fs) \<or>
   (\<forall>rest. parse_lines h b fs (l # rest) = parse_lines h (b \<or> py_in h (strip l)) fs rest) \<or>
   (7 \<le> length (row_cells (strip l)) \<and>
    (\<forall>rest. parse_lines h b fs (l # rest) =
       parse_lines h (b \<or> py_in h (strip l)) (fs @ [feature_of_cells (row_cells (strip l))]) rest))"
  by (auto simp: parse_lines.simps(2) Let_def)

lemma parse_lines_records:
  "\<exists>rows. set rows \<subseteq> set ls \<and> list_all (\<lambda>l. 7 \<le> length (row_cells (strip l))) rows \<and>
     parse_lines h b fs ls = fs @ map (\<lambda>l. feature_of_cells (row_cells (strip l))) rows"
proof (induction ls arbitrary: b fs)
  case Nil
  show ?case by simp
next
  case (Cons l ls)
  from parse_lines_step_cases [of h b fs l] consider
    (stop) "parse_lines h b fs (l # ls) = fs"
    | (skip) "parse_lines h b fs (l # ls) = parse_lines h (b \<or> py_in h (strip l)) fs ls"
    | (row) "7 \<le> length (row_cells (strip l))"
      "parse_lines h b fs (l # ls) =
        parse_lines h (b \<or> py_in h (strip l)) (fs @ [feature_of_cells (row_cells (strip l))]) ls"
    by blast
  then show ?case
  proof cases
    case stop
    have "set [] \<subseteq> set (l # ls) \<and> list_all (\<lambda>l. 7 \<le> length (row_cells (strip l))) [] \<and>
      parse_lines h b fs (l # ls) = fs @ map (\<lambda>l. feature_of_cells (row_cells (strip l))) []"
      using stop by simp
    then show ?thesis by blast
  next
    case skip
    from Cons.IH [of "b \<or> py_in h (strip l)" fs] obtain rows where
      "set rows \<subseteq> set ls" "list_all (\<lambda>l. 7 \<le> length (row_cells (strip l))) rows"
      "parse_lines h (b \<or> py_in h (strip l)) fs ls =
         fs @ map (\<lambda>l. feature_of_cells (row_cells (strip l))) rows"
      by blast
    with skip have "set rows \<subseteq> set (l # ls) \<and>
      list_all (\<lambda>l. 7 \<le> length (row_cells (strip l))) rows \<and>
      parse_lines h b fs (l # ls) = fs @ map (\<lambda>l. feature_of_cells (row_cells (strip l))) rows"
      by auto
    then show ?thesis by blast
  next
    case row
    from Cons.IH [of "b \<or> py_in h (strip l)" "fs @ [feature_of_cells (row_cells (strip l))]"]
    obtain rows where
      "set rows \<subseteq> set ls" "list_all (\<lambda>l. 7 \<le> length (row_cells (strip l))) rows"
      "parse_lines h (b \<or> py_in h (strip l)) (fs @ [feature_of_cells (row_cells (strip l))]) ls =
         (fs @ [feature_of_cells (row_cells (strip l))]) @
         map (\<lambda>l. feature_of_cells (row_cells (strip l))) rows"
      by blast
    with row have "set (l # rows) \<subseteq> set (l # ls) \<and>
      list_all (\<lambda>l. 7 \<le> length (row_cells (strip l))) (l # rows) \<and>
      parse_lines h b fs (l # ls) =
        fs @ map (\<lambda>l. feature_of_cells (row_cells (strip l))) (l # rows)"
      by auto
    then show ?thesis by blast
  qed
qed

lemma strip_last: "strip s \<noteq> [] \<Longrightarrow> \<not> is_space (last (strip s))"
proof -
  assume ne: "strip s \<noteq> []"
  define ys where "ys = dropWhile is_space (rev (dropWhile is_space s))"
  have s: "strip s = rev ys" by (simp add: strip_def ys_def)
  with ne have "ys \<noteq> []" by simp
  then have "\<not> is_space (hd ys)" unfolding ys_def by (rule hd_dropWhile)
  moreover have "last (rev ys) = hd ys" using \<open>ys \<noteq> []\<close> by (simp add: last_rev)
  ultimately show ?thesis by (simp add: s)
qed

lemma row_sha_trimmed:
  assumes "7 \<le> length (row_cells line)"
  shows "sha (feature_of_cells (row_cells line)) = [] \<or>
         \<not> is_space (last (sha (feature_of_cells (row_cells line))))"
proof -
  from assms have "1 < length (slice_inner (split_on (CHR ''|'') line))"
    by (simp add: row_cells_def)
  then have "row_cells line ! 1 = strip (slice_inner (split_on (CHR ''|'') line) ! 1)"
    by (simp add: row_cells_def)
  then show ?thesis
    using strip_last by (auto simp: feature_of_cells_def)
qed

lemma parsed_sha_trimmed:
  assumes "f \<in> set (parse_feature_table content h)"
  shows "sha f = [] \<or> \<not> is_space (last (sha f))"
proof -
  obtain rows where r: "list_all (\<lambda>l. 7 \<le> length (row_cells (strip l))) rows"
    and p: "parse_lines h False [] (split_on newline content) =
      [] @ map (\<lambda>l. feature_of_cells (row_cells (strip l))) rows"
    using parse_lines_records [of "split_on newline content" h False "[]"] by blast
  from assms p obtain l where l: "l \<in> set rows" and f: "f = feature_of_cells (row_cells (strip l))"
    by (auto simp: parse_feature_table_def)
  from r l have "7 \<le> length (row_cells (strip l))" by (simp add: list_all_iff)
  from row_sha_trimmed [OF this] show ?thesis by (simp only: f)
qed

lemma parsed_sha_exact:
  assumes "f \<in> set (parse_feature_table content h)"
  shows "sha_re_match (sha f) \<longleftrightarrow> length (sha f) = 40 \<and> list_all is_hex_lower (sha f)"
proof -
  have "is_space newline" by (simp add: is_space_def newline_def)
  with parsed_sha_trimmed [OF assms] show ?thesis
    by (auto simp: sha_re_match_def)
qed

section \<open>The table parser: claims\<close>

text \<open>
  C7. For all documents \<open>D\<close> and all header strings \<open>H\<close> such that \<open>H\<close> does not occur
  in \<open>D\<close>, parsing \<open>D\<close> with header \<open>H\<close> returns the empty record sequence. The parser
  has no error result: the list is all it returns.
\<close>

theorem parse_header_absent:
  assumes "\<not> py_in h content"
  shows "parse_feature_table content h = []"
proof -
  have "\<not> py_in h (strip l)" if "l \<in> set (split_on newline content)" for l
  proof
    assume "py_in h (strip l)"
    then have "sublist h (strip l)" by (simp add: py_in_sublist)
    also have "sublist (strip l) l" by (rule sublist_strip)
    also have "sublist l content" using that by (rule sublist_split_on)
    finally show False using assms by (simp add: py_in_sublist)
  qed
  then have "list_all (\<lambda>l. \<not> py_in h (strip l)) (split_on newline content)"
    by (simp add: list_all_iff)
  then show ?thesis
    unfolding parse_feature_table_def by (rule parse_lines_no_header)
qed

text \<open>The document with a table of one row, read with a header that it does not have.\<close>

theorem parse_header_absent_witness:
  "\<not> py_in ''| Task | Commit |'' (table_document example_sha) \<and>
   parse_feature_table (table_document example_sha) ''| Task | Commit |'' = []"
proof -
  have h: "\<not> py_in ''| Task | Commit |'' (table_document example_sha)"
    by code_simp
  show ?thesis using h parse_header_absent [OF h] by (rule conjI)
qed




text \<open>
  C6, as the code has it. A line after the header that, once trimmed, starts with
  \<^verbatim>\<open>|\<close> and gives fewer than 7 cells (empty cells count as cells) adds no record
  and raises nothing: the document parses as the document without that line.
\<close>

theorem parse_skips_short_row:
  assumes nl: "list_all (\<lambda>l. newline \<notin> set l) (pre @ hdr # mid @ l # post)"
    and hdr: "py_in h (strip hdr)"
    and l: "startswith (strip l) ''|''" "length (row_cells (strip l)) < 7"
  shows "parse_feature_table (join_lines (pre @ hdr # mid @ l # post)) h =
         parse_feature_table (join_lines (pre @ hdr # mid @ post)) h"
proof -
  have "split_on newline (join_lines (pre @ hdr # mid @ l # post)) = pre @ hdr # mid @ l # post"
    using nl by (intro split_join_lines) simp_all
  moreover have "split_on newline (join_lines (pre @ hdr # mid @ post)) = pre @ hdr # mid @ post"
    using nl by (intro split_join_lines) simp_all
  moreover have "parse_lines h False [] (pre @ hdr # mid @ l # post) =
      parse_lines h False [] (pre @ hdr # mid @ post)"
    using hdr parse_lines_short_row [OF l] by (rule parse_lines_after_header)
  ultimately show ?thesis
    by (simp add: parse_feature_table_def)
qed

text \<open>A row of three cells between two rows of seven.\<close>

theorem parse_skips_short_row_witness:
  "list_all (\<lambda>l. newline \<notin> set l)
     ([''# Feature log''] @ head_line # [rule_line, feature_row example_sha] @
      ''| C | only | three |'' # [other_row]) \<and>
   py_in ''| Feature | SHA |'' (strip head_line) \<and>
   startswith (strip ''| C | only | three |'') ''|'' \<and>
   length (row_cells (strip ''| C | only | three |'')) < 7 \<and>
   parse_feature_table (join_lines
     ([''# Feature log''] @ head_line # [rule_line, feature_row example_sha] @
      ''| C | only | three |'' # [other_row])) ''| Feature | SHA |'' =
   parse_feature_table (join_lines
     ([''# Feature log''] @ head_line # [rule_line, feature_row example_sha] @ [other_row]))
     ''| Feature | SHA |''"
proof -
  have 1: "list_all (\<lambda>l. newline \<notin> set l)
     ([''# Feature log''] @ head_line # [rule_line, feature_row example_sha] @
      ''| C | only | three |'' # [other_row])"
    by code_simp
  have 2: "py_in ''| Feature | SHA |'' (strip head_line)"
    by code_simp
  have 3: "startswith (strip ''| C | only | three |'') ''|''"
    by code_simp
  have 4: "length (row_cells (strip ''| C | only | three |'')) < 7"
    by code_simp
  from 1 2 3 4 parse_skips_short_row [OF 1 2 3 4] show ?thesis
    by (intro conjI)
qed

text \<open>
  C6 as it is stated fails: the parser counts the cells, empty or not. This row has
  one cell that is not empty and seven cells in all, and it gives a record.
\<close>

theorem parse_row_of_empty_cells_counterexample:
  "length (removeAll [] (row_cells ''| A | | | | | | |'')) = 1 \<and>
   parse_feature_table (join_lines [head_line, rule_line, ''| A | | | | | | |''])
     ''| Feature | SHA |'' =
   [\<lparr> name = ''A'', sha = [], author = [], branch = [], date = [], files_changed = [],
      message = [] \<rparr>]"
  by code_simp

lemma feature_row_cells:
  assumes "length s = 40" "list_all is_hex_lower s"
  shows "row_cells (feature_row s) =
    [''A'', s, ''alice'', ''main'', ''2024-01-01'', ''3'', ''fix bug'']"
proof -
  note f = sha_facts [OF assms]
  have "split_on (CHR ''|'') (feature_row s) =
    [[], '' A '', CHR '' '' # s @ '' '', '' alice '', '' main '', '' 2024-01-01 '', '' 3 '',
     '' fix bug '', []]"
    using f(4) by (simp add: feature_row_def split_on_append_nosep)
  then show ?thesis
    using f(1-3) by (simp add: row_cells_def slice_inner_def strip_padded) (simp add: strip_def is_space_def)
qed

lemma feature_row_line:
  assumes "length s = 40" "list_all is_hex_lower s"
  shows "strip (feature_row s) = feature_row s"
    and "\<not> py_in ''| Feature | SHA |'' (feature_row s)"
    and "startswith (feature_row s) ''|''"
    and "\<not> startswith (feature_row s) ''##''"
    and "\<not> py_in ''---'' (feature_row s)"
proof -
  note f = sha_facts [OF assms]
  show "strip (feature_row s) = feature_row s"
    by (simp add: strip_def feature_row_def is_space_def)
  show "\<not> py_in ''| Feature | SHA |'' (feature_row s)"
  proof
    assume "py_in ''| Feature | SHA |'' (feature_row s)"
    then have "set ''| Feature | SHA |'' \<subseteq> set (feature_row s)" by (rule py_in_set)
    then have "CHR ''F'' \<in> set (feature_row s)" by simp
    then show False using f(6) by (simp add: feature_row_def)
  qed
  show "startswith (feature_row s) ''|''" by (simp add: startswith_def feature_row_def)
  show "\<not> startswith (feature_row s) ''##''" by (simp add: startswith_def feature_row_def)
  have "CHR ''-'' \<notin> set (''| A | '' @ s)" using f(5) by simp
  then have "py_in ''---'' ((''| A | '' @ s) @ '' | alice | main | 2024-01-01 | 3 | fix bug |'') =
    py_in ''---'' '' | alice | main | 2024-01-01 | 3 | fix bug |''"
    by (rule py_in_skip)
  also have "\<dots> = False" by (simp add: startswith_def)
  finally show "\<not> py_in ''---'' (feature_row s)" by (simp add: feature_row_def)
qed

text \<open>
  C8. The document \<^const>\<open>table_document\<close> has a title, the header line of the table,
  its rule line, the single data row
  \<^verbatim>\<open>| A | <40-hex> | alice | main | 2024-01-01 | 3 | fix bug |\<close> and a following section.
  Whatever the 40 lowercase hexadecimal characters are, the parser yields exactly one
  record, with the seven cells in their places and trimmed.
\<close>

theorem parse_well_formed_row:
  assumes "length s = 40" "list_all is_hex_lower s"
  shows "parse_feature_table (table_document s) ''| Feature | SHA |'' =
    [\<lparr> name = ''A'', sha = s, author = ''alice'', branch = ''main'', date = ''2024-01-01'',
       files_changed = ''3'', message = ''fix bug'' \<rparr>]"
proof -
  note f = sha_facts [OF assms]
  note r = feature_row_line [OF assms]
  have nl: "newline \<notin> set (feature_row s)"
    using f(7) by (simp add: feature_row_def newline_def)
  have "split_on newline (table_document s) =
     [''# Feature log'', [], head_line, rule_line, feature_row s, [], ''## Notes'']"
    unfolding table_document_def using nl
    by (intro split_join_lines) (simp_all add: newline_def head_line_def rule_line_def)
  moreover have "parse_lines ''| Feature | SHA |'' True fs [feature_row s, [], ''## Notes''] =
    fs @ [feature_of_cells (row_cells (feature_row s))]" for fs
    using r by (simp add: parse_lines.simps(2) feature_row_cells [OF assms] Let_def)
      (simp add: strip_def startswith_def)
  ultimately show ?thesis
    by (simp add: parse_feature_table_def parse_lines.simps(2) strip_def is_space_def
        startswith_def Let_def feature_row_cells [OF assms] feature_of_cells_def
        head_line_def rule_line_def)
qed

theorem parse_well_formed_row_witness:
  "length example_sha = 40 \<and> list_all is_hex_lower example_sha \<and>
   parse_feature_table (table_document example_sha) ''| Feature | SHA |'' =
    [\<lparr> name = ''A'', sha = example_sha, author = ''alice'', branch = ''main'',
       date = ''2024-01-01'', files_changed = ''3'', message = ''fix bug'' \<rparr>]"
proof -
  have 1: "length example_sha = 40" by code_simp
  have 2: "list_all is_hex_lower example_sha" by code_simp
  from 1 2 parse_well_formed_row [OF 1 2] show ?thesis
    by (intro conjI)
qed

section \<open>Document fetch and commit lookup: claims\<close>

text \<open>
  C1, as the code has it. Every failed fetch returns the one value \<^verbatim>\<open>None\<close>, whatever
  the kind of the failure; the kind is told by the diagnostic that the fetch writes to
  the error stream, and by nothing in the returned value.
\<close>

theorem fetch_failure_kind_only_in_diagnostic:
  assumes "failure_kind world (net world (Get_Contents org repo path ref)) = Some k"
  shows "fst (fetch_github_file world path org repo ref) = JNull \<and>
         (\<exists>d. snd (fetch_github_file world path org repo ref) =
                [Http_Get (Get_Contents org repo path ref), Stderr d] \<and>
              diag_kind d = Some k)"
  using assms
  by (cases "net world (Get_Contents org repo path ref)")
    (auto simp: fetch_github_file_def Let_def split: if_splits sum.splits)

text \<open>A missing file, and a timeout.\<close>

theorem fetch_failure_kind_only_in_diagnostic_witness:
  "failure_kind (world_of (Responded (plain_response 404)))
     (net (world_of (Responded (plain_response 404)))
        (Get_Contents ''org'' ''repo'' ''FEATURES.md'' ''main'')) = Some Not_Found \<and>
   fst (fetch_github_file (world_of (Responded (plain_response 404)))
      ''FEATURES.md'' ''org'' ''repo'' ''main'') = JNull \<and>
   (\<exists>d. snd (fetch_github_file (world_of (Responded (plain_response 404)))
           ''FEATURES.md'' ''org'' ''repo'' ''main'') =
          [Http_Get (Get_Contents ''org'' ''repo'' ''FEATURES.md'' ''main''), Stderr d] \<and>
        diag_kind d = Some Not_Found) \<and>
   failure_kind (world_of Timed_Out)
     (net (world_of Timed_Out) (Get_Contents ''org'' ''repo'' ''FEATURES.md'' ''main'')) =
     Some Transport_Timeout \<and>
   fst (fetch_github_file (world_of Timed_Out) ''FEATURES.md'' ''org'' ''repo'' ''main'') = JNull \<and>
   (\<exists>d. snd (fetch_github_file (world_of Timed_Out) ''FEATURES.md'' ''org'' ''repo'' ''main'') =
          [Http_Get (Get_Contents ''org'' ''repo'' ''FEATURES.md'' ''main''), Stderr d] \<and>
        diag_kind d = Some Transport_Timeout)"
proof -
  have 1: "failure_kind (world_of (Responded (plain_response 404)))
     (net (world_of (Responded (plain_response 404)))
        (Get_Contents ''org'' ''repo'' ''FEATURES.md'' ''main'')) = Some Not_Found"
    by (simp add: world_of_def plain_response_def)
  have 2: "failure_kind (world_of Timed_Out)
     (net (world_of Timed_Out) (Get_Contents ''org'' ''repo'' ''FEATURES.md'' ''main'')) =
     Some Transport_Timeout"
    by (simp add: world_of_def)
  from 1 fetch_failure_kind_only_in_diagnostic [OF 1]
    2 fetch_failure_kind_only_in_diagnostic [OF 2]
  show ?thesis
    by blast
qed

text \<open>
  C1 as it is stated fails: the returned value does not tell the four kinds of failure
  apart. A missing file, a refused access, a timeout and a broken connection all return
  \<^verbatim>\<open>None\<close>.
\<close>

theorem fetch_failures_same_value_counterexample:
  "fst (fetch_github_file (world_of (Responded (plain_response 404)))
      ''FEATURES.md'' ''org'' ''repo'' ''main'') =
   fst (fetch_github_file (world_of (Responded (plain_response 403)))
      ''FEATURES.md'' ''org'' ''repo'' ''main'') \<and>
   fst (fetch_github_file (world_of (Responded (plain_response 403)))
      ''FEATURES.md'' ''org'' ''repo'' ''main'') =
   fst (fetch_github_file (world_of Timed_Out) ''FEATURES.md'' ''org'' ''repo'' ''main'') \<and>
   fst (fetch_github_file (world_of Timed_Out) ''FEATURES.md'' ''org'' ''repo'' ''main'') =
   fst (fetch_github_file (world_of (Failed ''connection reset''))
      ''FEATURES.md'' ''org'' ''repo'' ''main'')"
  by (simp add: fetch_github_file_def world_of_def plain_response_def)

text \<open>The four fetches of the counterexample are failures of four different kinds.\<close>

lemma fetch_failures_kinds:
  "failure_kind w (Responded (plain_response 404)) = Some Not_Found"
  "failure_kind w (Responded (plain_response 403)) = Some Access_Denied"
  "failure_kind w Timed_Out = Some Transport_Timeout"
  "failure_kind w (Failed ''connection reset'') = Some Other_Transport_Error"
  by (simp_all add: plain_response_def)

lemma sha_re_match_length: "sha_re_match s \<Longrightarrow> length s = 40 \<or> length s = 41"
  by (auto simp: sha_re_match_def)

lemma upper_not_hex: "is_ascii_upper c \<Longrightarrow> \<not> is_hex_lower c \<and> c \<noteq> newline"
  by (auto simp: is_ascii_upper_def is_hex_lower_def newline_def Let_def)

lemma sha_re_match_no_upper:
  assumes "sha_re_match s" "c \<in> set s"
  shows "\<not> is_ascii_upper c"
proof
  assume up: "is_ascii_upper c"
  from assms(1) consider "list_all is_hex_lower s"
    | "s \<noteq> [] \<and> last s = newline \<and> list_all is_hex_lower (butlast s)"
    by (fastforce simp: sha_re_match_def)
  then show False
  proof cases
    case 1
    with assms(2) up show False by (auto simp: list_all_iff dest: upper_not_hex)
  next
    case 2
    then have ne: "s \<noteq> []" and ln: "last s = newline"
      and hx: "list_all is_hex_lower (butlast s)"
      by blast+
    from ne have "set (butlast s @ [last s]) = set s" by simp
    with assms(2) have "c \<in> set (butlast s) \<or> c = last s" by auto
    with ln hx up show False by (auto simp: list_all_iff dest: upper_not_hex)
  qed
qed

lemma sha_re_match_rejects:
  "length s = 39 \<or> list_ex is_ascii_upper s \<Longrightarrow> \<not> sha_re_match s"
  by (auto simp: list_ex_iff dest: sha_re_match_length sha_re_match_no_upper)

text \<open>
  What the format check rejects is refused at once. A sha that Python's \<^verbatim>\<open>re.match\<close>
  does not match against \<^verbatim>\<open>^[a-f0-9]{40}$\<close> makes the commit lookup return \<^verbatim>\<open>None\<close>
  with the invalid-format diagnostic and nothing else: no request is sent. In step 6 of
  the engine a record with such a sha, when the sha is a key of \<open>expected_authors\<close>,
  fails on the format check, again with no request sent.
\<close>

lemma invalid_sha_short_circuits:
  assumes "\<not> sha_re_match s"
  shows "verify_commit world s org repo = (JNull, [Stderr (Invalid_Sha s)]) \<and>
         \<not> list_ex is_http_get (snd (verify_commit world s org repo)) \<and>
         (sha feat = s \<and> expected_authors cfg s \<noteq> None \<longrightarrow>
            verify_feature world cfg org feat = (Failed_Step, [Stderr (Invalid_Sha s)]) \<and>
            \<not> list_ex is_http_get (snd (verify_feature world cfg org feat)))"
  using assms by (auto simp: verify_commit_def verify_feature_def Let_def)

text \<open>Two such inputs: 39 characters, and one upper-case character.\<close>

lemma invalid_sha_examples:
  "\<not> sha_re_match (replicate 39 (CHR ''a'')) \<and>
   verify_commit served_world (replicate 39 (CHR ''a'')) ''org'' ''repo'' =
     (JNull, [Stderr (Invalid_Sha (replicate 39 (CHR ''a'')))]) \<and>
   \<not> sha_re_match (CHR ''A'' # replicate 39 (CHR ''a'')) \<and>
   verify_feature served_world
     (example_config \<lparr> expected_authors := [CHR ''A'' # replicate 39 (CHR ''a'') \<mapsto> None] \<rparr>)
     ''org'' ((record_a example_sha) \<lparr> sha := CHR ''A'' # replicate 39 (CHR ''a'') \<rparr>) =
     (Failed_Step, [Stderr (Invalid_Sha (CHR ''A'' # replicate 39 (CHR ''a'')))])"
proof -
  have 1: "\<not> sha_re_match (replicate 39 (CHR ''a''))"
    by (rule sha_re_match_rejects) simp
  have 2: "\<not> sha_re_match (CHR ''A'' # replicate 39 (CHR ''a''))"
    by (rule sha_re_match_rejects) (simp add: is_ascii_upper_def)
  from 1 invalid_sha_short_circuits [OF 1, of served_world "''org''" "''repo''"]
    2 invalid_sha_short_circuits [OF 2, of served_world "''org''" "''repo''"
      "(record_a example_sha) \<lparr> sha := CHR ''A'' # replicate 39 (CHR ''a'') \<rparr>"
      "example_config \<lparr> expected_authors := [CHR ''A'' # replicate 39 (CHR ''a'') \<mapsto> None] \<rparr>"]
  show ?thesis by simp
qed

text \<open>
  The format check and the exact form of a sha differ on one kind of string only: 40
  hexadecimal characters followed by a newline. The sha of a parsed record is a trimmed
  cell, so in step 6 the two agree, and a record whose sha is a key of
  \<open>expected_authors\<close> and is not exactly 40 lowercase hexadecimal characters fails on the
  format check with no request sent.
\<close>

lemma sha_re_match_exact:
  "sha_re_match s \<longleftrightarrow>
     exact_sha s \<or> (s \<noteq> [] \<and> last s = newline \<and> exact_sha (butlast s))"
  by (auto simp: sha_re_match_def exact_sha_def)

lemma parsed_record_invalid_sha_fails:
  assumes "feat \<in> set (parse_feature_table content h)"
    and "expected_authors cfg (sha feat) \<noteq> None"
    and "\<not> exact_sha (sha feat)"
  shows "verify_feature world cfg org feat = (Failed_Step, [Stderr (Invalid_Sha (sha feat))]) \<and>
         \<not> list_ex is_http_get (snd (verify_feature world cfg org feat))"
proof -
  from assms(3) have "\<not> sha_re_match (sha feat)"
    by (simp add: parsed_sha_exact [OF assms(1)] exact_sha_def)
  from invalid_sha_short_circuits [OF this, of world org "target_repo cfg" feat cfg] assms(2)
  show ?thesis by simp
qed

text \<open>
  C4. Every sha that is not exactly 40 characters of \<^verbatim>\<open>[a-f0-9]\<close> should make the commit
  lookup fail at once with the invalid-format diagnostic and with no request sent. The
  code does not do so on \<^const>\<open>sha_with_newline\<close>: the string has 41 characters and is no
  exact sha, the pattern of the format check ends in \<^verbatim>\<open>$\<close> and \<^verbatim>\<open>re.match\<close> accepts it,
  and \<^verbatim>\<open>verify_commit\<close> sends the request for it and returns the commit. The message of
  the format check itself says that the sha must be 40 lowercase hexadecimal digits.
\<close>

theorem verify_commit_final_newline_sends_request:
  "\<not> exact_sha sha_with_newline \<and>
   sha_re_match sha_with_newline \<and>
   verify_commit served_world sha_with_newline ''org'' ''repo'' =
     (JObj (commit_entries sha_with_newline JNull),
      [Http_Get (Get_Commit ''org'' ''repo'' sha_with_newline)]) \<and>
   list_ex is_http_get (snd (verify_commit served_world sha_with_newline ''org'' ''repo''))"
  by code_simp

section \<open>The verification engine: claims\<close>

lemma fetch_no_commit_lookup:
  "list_all (\<lambda>e. \<not> is_commit_lookup e) (snd (fetch_github_file world path org repo ref))"
  by (simp add: fetch_github_file_def Let_def split: http_outcome.split sum.split)

lemma check_expected_features_missing:
  "(n, s) \<in> set efs \<Longrightarrow> m n = None \<Longrightarrow> check_expected_features m efs \<noteq> None"
  by (induction m efs rule: check_expected_features.induct) (auto split: option.splits)

lemma feat_name_to_sha_None:
  "feat_name_to_sha fs n = None \<longleftrightarrow> list_all (\<lambda>f. name f \<noteq> n) fs"
  by (auto simp: feat_name_to_sha_def map_of_eq_None_iff list_all_iff image_iff)

lemma check_sections_text:
  "check_sections (JStr c) ss = Inr None \<or> (\<exists>s. check_sections (JStr c) ss = Inr (Some s))"
  by (induction ss) (auto split: bool.splits)

lemma verify_table_missing:
  assumes "(n, s) \<in> set (expected_features cfg)"
    and "list_all (\<lambda>f. name f \<noteq> n) (parse_feature_table content (table_header cfg))"
  shows "\<exists>d. verify_table world cfg org content = (Inr False, [Stderr d])"
proof -
  have "feat_name_to_sha (parse_feature_table content (table_header cfg)) n = None"
    using assms(2) by (simp add: feat_name_to_sha_None)
  with assms(1) obtain d where
    "check_expected_features (feat_name_to_sha (parse_feature_table content (table_header cfg)))
       (expected_features cfg) = Some d"
    using check_expected_features_missing by fastforce
  then show ?thesis
    by (simp add: verify_table_def Let_def)
qed

lemma run_on_text:
  assumes "fetch_github_file world (feature_doc_path cfg) org (target_repo cfg) (target_branch cfg) =
    (JStr content, t)"
  shows "run_verification world cfg org =
    (if content = [] then (Inr False, t)
     else case check_sections (JStr content) (required_sections cfg) of
            Inl e \<Rightarrow> (Inl e, t)
          | Inr (Some s) \<Rightarrow> (Inr False, t @ [Stderr (Missing_Section s)])
          | Inr None \<Rightarrow>
              (fst (verify_table world cfg org content),
               t @ snd (verify_table world cfg org content)))"
  using assms by (simp add: run_verification_def split: sum.split option.split prod.split)

text \<open>
  C3. When the document is fetched as a text and \<open>expected_features\<close> has a pair whose
  name no parsed record has, the run returns \<^verbatim>\<open>False\<close> and has sent no commit lookup:
  step 5 (or an earlier step) fails before step 6 starts.
\<close>

theorem missing_feature_fails_before_lookup:
  assumes doc: "fst (fetch_github_file world (feature_doc_path cfg) org (target_repo cfg)
                  (target_branch cfg)) = JStr content"
    and pair: "(n, s) \<in> set (expected_features cfg)"
    and miss: "list_all (\<lambda>f. name f \<noteq> n) (parse_feature_table content (table_header cfg))"
  shows "fst (run_verification world cfg org) = Inr False \<and>
         list_all (\<lambda>e. \<not> is_commit_lookup e) (snd (run_verification world cfg org))"
proof -
  obtain t where f: "fetch_github_file world (feature_doc_path cfg) org (target_repo cfg)
      (target_branch cfg) = (JStr content, t)"
    using doc by (cases "fetch_github_file world (feature_doc_path cfg) org (target_repo cfg)
      (target_branch cfg)") simp
  have t: "list_all (\<lambda>e. \<not> is_commit_lookup e) t"
    using fetch_no_commit_lookup [of world "feature_doc_path cfg" org "target_repo cfg"
      "target_branch cfg"] f by simp
  obtain d where d: "verify_table world cfg org content = (Inr False, [Stderr d])"
    using verify_table_missing [OF pair miss] by blast
  from check_sections_text [of content "required_sections cfg"] show ?thesis
  proof
    assume "check_sections (JStr content) (required_sections cfg) = Inr None"
    then show ?thesis using t d by (simp add: run_on_text [OF f])
  next
    assume "\<exists>s. check_sections (JStr content) (required_sections cfg) = Inr (Some s)"
    then show ?thesis using t by (auto simp: run_on_text [OF f])
  qed
qed

text \<open>The table has the feature A only, and the configuration expects a feature X.\<close>

theorem missing_feature_fails_before_lookup_witness:
  "fst (fetch_github_file served_world (feature_doc_path config_expecting_x) ''org''
          (target_repo config_expecting_x) (target_branch config_expecting_x)) =
     JStr (table_document example_sha) \<and>
   (''X'', example_sha) \<in> set (expected_features config_expecting_x) \<and>
   list_all (\<lambda>f. name f \<noteq> ''X'')
     (parse_feature_table (table_document example_sha) (table_header config_expecting_x)) \<and>
   fst (run_verification served_world config_expecting_x ''org'') = Inr False \<and>
   list_all (\<lambda>e. \<not> is_commit_lookup e)
     (snd (run_verification served_world config_expecting_x ''org''))"
proof -
  have 1: "fst (fetch_github_file served_world (feature_doc_path config_expecting_x) ''org''
          (target_repo config_expecting_x) (target_branch config_expecting_x)) =
     JStr (table_document example_sha)"
    by (simp add: fetch_github_file_def served_world_def example_world_def plain_response_def
        fetch_decode_def dict_get_def)
  have 2: "(''X'', example_sha) \<in> set (expected_features config_expecting_x)"
    by (simp add: config_expecting_x_def)
  have 3: "list_all (\<lambda>f. name f \<noteq> ''X'')
     (parse_feature_table (table_document example_sha) (table_header config_expecting_x))"
    by code_simp
  from 1 2 3 missing_feature_fails_before_lookup [OF 1 2 3] show ?thesis
    by (intro conjI) simp_all
qed

lemma verify_commits_passed:
  "is_passed (fst (verify_feature world cfg org f)) \<Longrightarrow>
   fst (verify_commits world cfg org (f # rest)) = fst (verify_commits world cfg org rest)"
  by (cases "verify_feature world cfg org f"; cases "fst (verify_feature world cfg org f)")
    (auto split: prod.splits)

lemma verify_commits_failed:
  "fst (verify_feature world cfg org f) = Failed_Step \<Longrightarrow>
   verify_commits world cfg org (f # rest) = (Inr False, snd (verify_feature world cfg org f))"
  by (cases "verify_feature world cfg org f") auto

lemma verify_commits_raised:
  "fst (verify_feature world cfg org f) = Raised x \<Longrightarrow>
   fst (verify_commits world cfg org (f # rest)) = Inl x"
  by (cases "verify_feature world cfg org f") auto


lemma verify_commits_failed_member:
  assumes "f \<in> set fs" and "fst (verify_feature world cfg org f) = Failed_Step"
  shows "fst (verify_commits world cfg org fs) \<noteq> Inr True"
  using assms
proof (induction fs)
  case Nil
  then show ?case by simp
next
  case (Cons g gs)
  show ?case
  proof (cases "fst (verify_feature world cfg org g)")
    case Skipped
    with Cons show ?thesis by (auto simp: verify_commits_passed simp del: verify_commits.simps)
  next
    case Verified
    with Cons show ?thesis by (auto simp: verify_commits_passed simp del: verify_commits.simps)
  next
    case Failed_Step
    then show ?thesis by (simp add: verify_commits_failed del: verify_commits.simps)
  next
    case (Raised x)
    then show ?thesis by (simp add: verify_commits_raised del: verify_commits.simps)
  qed
qed

lemma verify_table_result:
  "fst (verify_table world cfg org content) = Inr False \<or>
   fst (verify_table world cfg org content) =
     fst (verify_commits world cfg org (parse_feature_table content (table_header cfg)))"
  by (simp add: verify_table_def Let_def split: option.split)

lemma run_not_true:
  assumes doc: "fst (fetch_github_file world (feature_doc_path cfg) org (target_repo cfg)
                  (target_branch cfg)) = JStr content"
    and mem: "f \<in> set (parse_feature_table content (table_header cfg))"
    and fail: "fst (verify_feature world cfg org f) = Failed_Step"
  shows "fst (run_verification world cfg org) \<noteq> Inr True"
proof -
  obtain t where f: "fetch_github_file world (feature_doc_path cfg) org (target_repo cfg)
      (target_branch cfg) = (JStr content, t)"
    using doc by (cases "fetch_github_file world (feature_doc_path cfg) org (target_repo cfg)
      (target_branch cfg)") simp
  have "fst (verify_table world cfg org content) \<noteq> Inr True"
    using verify_table_result [of world cfg org content]
      verify_commits_failed_member [OF mem fail] by auto
  then show ?thesis
    by (simp add: run_on_text [OF f] split: sum.split option.split)
qed

lemma main_exit_code_failure: "r \<noteq> Inr True \<Longrightarrow> main_exit_code r = 1"
  by (cases r) (auto simp: main_exit_code_def split: bool.splits)

text \<open>
  C2, as the code has it. When the document is fetched as a text and a parsed record
  has a sha that is a key of \<open>expected_authors\<close> and that the pattern does not match,
  the run does not pass: it never returns \<^verbatim>\<open>True\<close>, and the program exits with 1. The
  keys of the three maps are looked at through the records only.
\<close>

theorem malformed_record_sha_fails_run:
  assumes doc: "fst (fetch_github_file world (feature_doc_path cfg) org (target_repo cfg)
                  (target_branch cfg)) = JStr content"
    and mem: "f \<in> set (parse_feature_table content (table_header cfg))"
    and key: "expected_authors cfg (sha f) \<noteq> None"
    and bad: "\<not> sha_re_match (sha f)"
  shows "fst (run_verification world cfg org) \<noteq> Inr True \<and>
         main_exit_code (fst (run_verification world cfg org)) = 1"
proof -
  have "fst (verify_feature world cfg org f) = Failed_Step"
    using key bad by (auto simp: verify_feature_def Let_def)
  with doc mem have "fst (run_verification world cfg org) \<noteq> Inr True"
    by (rule run_not_true)
  then show ?thesis by (simp add: main_exit_code_failure)
qed

text \<open>The row of the table carries \<^verbatim>\<open>c0ffee\<close>, a key of \<open>expected_authors\<close>.\<close>

theorem malformed_record_sha_fails_run_witness:
  "fst (fetch_github_file malformed_world (feature_doc_path config_keyed_by_c0ffee) ''org''
          (target_repo config_keyed_by_c0ffee) (target_branch config_keyed_by_c0ffee)) =
     JStr (table_document ''c0ffee'') \<and>
   record_a ''c0ffee'' \<in>
     set (parse_feature_table (table_document ''c0ffee'') (table_header config_keyed_by_c0ffee)) \<and>
   expected_authors config_keyed_by_c0ffee (sha (record_a ''c0ffee'')) \<noteq> None \<and>
   \<not> sha_re_match (sha (record_a ''c0ffee'')) \<and>
   fst (run_verification malformed_world config_keyed_by_c0ffee ''org'') \<noteq> Inr True \<and>
   main_exit_code (fst (run_verification malformed_world config_keyed_by_c0ffee ''org'')) = 1"
proof -
  have 1: "fst (fetch_github_file malformed_world (feature_doc_path config_keyed_by_c0ffee) ''org''
          (target_repo config_keyed_by_c0ffee) (target_branch config_keyed_by_c0ffee)) =
     JStr (table_document ''c0ffee'')"
    by (simp add: fetch_github_file_def malformed_world_def example_world_def plain_response_def
        fetch_decode_def dict_get_def)
  have 2: "record_a ''c0ffee'' \<in>
     set (parse_feature_table (table_document ''c0ffee'') (table_header config_keyed_by_c0ffee))"
    by code_simp
  have 3: "expected_authors config_keyed_by_c0ffee (sha (record_a ''c0ffee'')) \<noteq> None"
    by (simp add: config_keyed_by_c0ffee_def record_a_def)
  have 4: "\<not> sha_re_match (sha (record_a ''c0ffee''))"
    by (simp add: record_a_def sha_re_match_def)
  from 1 2 3 4 malformed_record_sha_fails_run [OF 1 2 3 4] show ?thesis
    by (intro conjI) simp_all
qed

text \<open>
  C2 as it is stated fails: \<^verbatim>\<open>BAD\<close>, \<^verbatim>\<open>not-a-sha\<close> and \<^verbatim>\<open>XYZ\<close> are keys of the three
  maps, none is a sha and no record carries them; the run passes all the same.
\<close>

theorem stray_keys_pass_counterexample:
  "expected_authors config_with_stray_keys ''BAD'' \<noteq> None \<and> \<not> sha_re_match ''BAD'' \<and>
   expected_messages config_with_stray_keys ''not-a-sha'' \<noteq> None \<and> \<not> sha_re_match ''not-a-sha'' \<and>
   expected_dates config_with_stray_keys ''XYZ'' \<noteq> None \<and> \<not> sha_re_match ''XYZ'' \<and>
   fst (run_verification served_world config_with_stray_keys ''org'') = Inr True"
  by code_simp

























end
